theory Spec2Isabelle
  imports Main "HOL-Library.Word"
begin

unbundle bit_operations_syntax

section \<open>Values shared by the sources\<close>

text \<open>
  JavaScript numbers that hold integers are modelled as \<open>int\<close>; the arithmetic of the
  sources is exact on them as long as every intermediate value stays below \<open>2 ^ 53\<close>.
  A \<open>Buffer\<close> is a list of bytes. A \<open>Hash\<close> is, as in the sources
  (\<open>typeof options.prevBlock === 'string'\<close>, \<open>br.readHash('hex')\<close>), a string of
  64 lower-case hexadecimal digits.
\<close>

type_synonym byte = "8 word"
type_synonym Hash = string

datatype error = AssertionError string | TypeError string

subsection \<open>Hexadecimal strings\<close>

text \<open>
  Digits are handled through their character codes: \<open>0\<close>..\<open>9\<close> are 48..57,
  \<open>a\<close>..\<open>f\<close> are 97..102 and \<open>A\<close>..\<open>F\<close> are 65..70.
\<close>

definition hexDigit :: "nat \<Rightarrow> char" where
  "hexDigit n = char_of (if n < 10 then 48 + n else 87 + n)"

definition hexVal :: "char \<Rightarrow> nat option" where
  "hexVal c =
     (let k = of_char c :: nat
      in if 48 \<le> k \<and> k \<le> 57 then Some (k - 48)
         else if 97 \<le> k \<and> k \<le> 102 then Some (k - 87)
         else if 65 \<le> k \<and> k \<le> 70 then Some (k - 55)
         else None)"

definition isLowerHex :: "char \<Rightarrow> bool" where
  "isLowerHex c =
     (let k = of_char c :: nat in (48 \<le> k \<and> k \<le> 57) \<or> (97 \<le> k \<and> k \<le> 102))"

text \<open>\<open>buf.toString('hex')\<close>: two lower-case digits per byte, high nibble first.\<close>

fun toHex :: "byte list \<Rightarrow> string" where
  "toHex [] = []"
| "toHex (b # bs) = hexDigit (unat b div 16) # hexDigit (unat b mod 16) # toHex bs"

text \<open>
  \<open>Buffer.write(str, 'hex')\<close>: pairs of digits are decoded from the left; decoding
  stops at the first pair that is not hexadecimal.
\<close>

fun fromHex :: "string \<Rightarrow> byte list" where
  "fromHex (a # b # rest) =
     (case (hexVal a, hexVal b) of
        (Some x, Some y) \<Rightarrow> of_nat (16 * x + y) # fromHex rest
      | _ \<Rightarrow> [])"
| "fromHex _ = []"

definition isHash :: "Hash \<Rightarrow> bool" where
  "isHash h = (length h = 64 \<and> list_all isLowerHex h)"

subsection \<open>StaticWriter and BufferReader\<close>

text \<open>
  Modelled from the spec: the classes \<open>StaticWriter\<close> (\<open>../utils/staticwriter\<close>) and
  \<open>BufferReader\<close> (\<open>../utils/reader\<close>) are not among the sources. The wire format
  is the spec's: ``All integers are serialized little-endian; hashes are appended in
  their canonical 32-byte little-endian wire order''. A writer is the list of bytes
  written so far; \<open>writeU32\<close> keeps the low 32 bits of its argument; \<open>writeHash\<close>
  insists on 64 characters. Where a hash string holds a character that is not a
  hexadecimal digit the bytes after it are whatever the buffer held before; the model
  writes zeros there, and no theorem below depends on it.
\<close>

definition u32le :: "int \<Rightarrow> byte list" where
  "u32le n =
     (let m = n mod 2 ^ 32
      in [word_of_int m, word_of_int (m div 2 ^ 8), word_of_int (m div 2 ^ 16),
          word_of_int (m div 2 ^ 24)])"

definition writeU32 :: "byte list \<Rightarrow> int \<Rightarrow> error + byte list" where
  "writeU32 bw n = Inr (bw @ u32le n)"

definition hashBytes :: "Hash \<Rightarrow> byte list" where
  "hashBytes h = (let bs = fromHex h in bs @ replicate (32 - length bs) 0)"

definition writeHash :: "byte list \<Rightarrow> Hash \<Rightarrow> error + byte list" where
  "writeHash bw h =
     (if length h \<noteq> 64 then Inl (AssertionError ''value.length === 64'')
      else Inr (bw @ hashBytes h))"

text \<open>Sequencing of operations that may throw.\<close>

definition andThen :: "error + 'a \<Rightarrow> ('a \<Rightarrow> error + 'b) \<Rightarrow> error + 'b" where
  "andThen r f = (case r of Inl e \<Rightarrow> Inl e | Inr x \<Rightarrow> f x)"

text \<open>A reader is the list of bytes not yet consumed.\<close>

definition readU32 :: "byte list \<Rightarrow> error + (int \<times> byte list)" where
  "readU32 br =
     (case br of
        b0 # b1 # b2 # b3 # rest \<Rightarrow>
          Inr (uint b0 + 2 ^ 8 * uint b1 + 2 ^ 16 * uint b2 + 2 ^ 24 * uint b3, rest)
      | _ \<Rightarrow> Inl (AssertionError ''Out of bounds read''))"

definition readHash :: "byte list \<Rightarrow> error + (Hash \<times> byte list)" where
  "readHash br =
     (if length br < 32 then Inl (AssertionError ''Out of bounds read'')
      else Inr (toHex (take 32 br), drop 32 br))"

section \<open>AbstractBlock: the block header\<close>

record AbstractBlock =
  version :: int
  prevBlock :: Hash
  merkleRoot :: Hash
  ts :: int
  bits :: int
  nonce :: int
  mutable :: bool
  hash_cache :: "byte list option"
  hhash_cache :: "string option"

text \<open>\<open>new AbstractBlock()\<close>.\<close>

definition NULL_HASH :: Hash where
  "NULL_HASH = replicate 64 (CHR ''0'')"

definition newAbstractBlock :: AbstractBlock where
  "newAbstractBlock =
     \<lparr>version = 1, prevBlock = NULL_HASH, merkleRoot = NULL_HASH, ts = 0, bits = 0,
      nonce = 0, mutable = False, hash_cache = None, hhash_cache = None\<rparr>"

definition writeHead :: "AbstractBlock \<Rightarrow> byte list \<Rightarrow> error + byte list" where
  "writeHead this bw =
     andThen (writeU32 bw (version this)) (\<lambda>bw.
     andThen (writeHash bw (prevBlock this)) (\<lambda>bw.
     andThen (writeHash bw (merkleRoot this)) (\<lambda>bw.
     andThen (writeU32 bw (ts this)) (\<lambda>bw.
     andThen (writeU32 bw (bits this)) (\<lambda>bw.
     writeU32 bw (nonce this))))))"

text \<open>
  \<open>toHead\<close>: a fresh \<open>StaticWriter(80)\<close>, \<open>writeHead\<close>, then \<open>render\<close>, which hands
  out the 80-byte buffer.
\<close>

definition toHead :: "AbstractBlock \<Rightarrow> error + byte list" where
  "toHead this = writeHead this []"

definition readHead :: "AbstractBlock \<Rightarrow> byte list \<Rightarrow> error + AbstractBlock" where
  "readHead this br =
     andThen (readU32 br) (\<lambda>(v, br).
     andThen (readHash br) (\<lambda>(p, br).
     andThen (readHash br) (\<lambda>(m, br).
     andThen (readU32 br) (\<lambda>(t, br).
     andThen (readU32 br) (\<lambda>(b, br).
     andThen (readU32 br) (\<lambda>(n, br).
       Inr (this\<lparr>version := v, prevBlock := p, merkleRoot := m, ts := t, bits := b,
                 nonce := n\<rparr>)))))))"

definition fromHead :: "AbstractBlock \<Rightarrow> byte list \<Rightarrow> error + AbstractBlock" where
  "fromHead this data = readHead this data"

definition isU32 :: "int \<Rightarrow> bool" where
  "isU32 n = (0 \<le> n \<and> n < 2 ^ 32)"

definition validHeader :: "AbstractBlock \<Rightarrow> bool" where
  "validHeader h =
     (isU32 (version h) \<and> isHash (prevBlock h) \<and> isHash (merkleRoot h) \<and>
      isU32 (ts h) \<and> isU32 (bits h) \<and> isU32 (nonce h))"

section \<open>Primitives outside the sources\<close>

text \<open>
  The double SHA-256 \<open>digest.hash256\<close>, the compact-target conversions
  \<open>consensus.fromCompact\<close> and \<open>consensus.toCompact\<close> and the constant
  \<open>consensus.STAKE_MIN_CONFIRMATIONS\<close> are used by the sources and defined
  elsewhere; the spec treats them as pure functions. They are parameters of the model:
  every theorem below holds for each choice of them.
\<close>

record Externals =
  STAKE_MIN_CONFIRMATIONS :: int
  fromCompact :: "int \<Rightarrow> int"
  toCompact :: "nat \<Rightarrow> int"
  hash256 :: "byte list \<Rightarrow> byte list"

text \<open>
  The big-number class \<open>BN\<close> (\<open>../crypto/bn\<close>) is the library \<open>bn.js\<close>; it is not
  among the sources, and the model follows the library. Its constructor is
  \<open>BN(number, base, endian)\<close>, as the call \<open>new BN(nValueIn, 10)\<close> shows. The kernel
  calls \<open>new BN(proofOfStakeHash, 'le')\<close> on the hexadecimal string of the digest: with
  \<open>'le'\<close> in the place of the base the library takes base 10 and the little-endian
  order. It then
  \<^item> reads the string as a numeral in base 10, a character \<open>c\<close> counting
    \<open>c - '0'\<close>, the letters \<open>a\<close>..\<open>f\<close> (and \<open>A\<close>..\<open>F\<close>) counting 10..15
    (\<open>parseBase10\<close>);
  \<^item> writes the number as its shortest big-endian byte array (\<open>toArray\<close>);
  \<^item> reads that array as a little-endian number (\<open>leNat\<close>).
  The string of a digest holds digits and the letters \<open>a\<close>..\<open>f\<close> only, so the number
  read is not negative. \<open>div\<close> truncates and \<open>cmp\<close> compares the integers.
  \<open>new BN(nValueIn, 10)\<close> is the number \<open>nValueIn\<close> itself for values below
  \<open>2 ^ 53\<close>, where the values of outputs lie.
\<close>

fun leNat :: "byte list \<Rightarrow> nat" where
  "leNat [] = 0"
| "leNat (b # bs) = unat b + 256 * leNat bs"

definition parseDigit :: "char \<Rightarrow> int" where
  "parseDigit ch =
     (let c = int (of_char ch) - 48
      in if c \<ge> 49 then c - 49 + 10 else if c \<ge> 17 then c - 17 + 10 else c)"

definition parseBase10 :: "string \<Rightarrow> int" where
  "parseBase10 number = foldl (\<lambda>r ch. r * 10 + parseDigit ch) 0 number"

fun toArray :: "nat \<Rightarrow> byte list" where
  "toArray n = (if n < 256 then [of_nat n] else toArray (n div 256) @ [of_nat (n mod 256)])"

declare toArray.simps [simp del]

definition BN_le :: "string \<Rightarrow> nat" where
  "BN_le number = leNat (toArray (nat (parseBase10 number)))"

text \<open>Two digits of the string of a buffer at once: what one byte adds to the numeral.\<close>

definition nibbleStep :: "int \<Rightarrow> byte \<Rightarrow> int" where
  "nibbleStep r b = (r * 10 + int (unat b div 16)) * 10 + int (unat b mod 16)"

section \<open>Pos: the stake kernel\<close>

text \<open>
  The tip snapshot \<open>prev\<close>, the coins of the staked transaction (\<open>coin\<close>, possibly
  \<open>null\<close>) and the outpoint \<open>previousout\<close>. Field names carry a prefix where two
  objects of the sources share a name; \<open>out_value\<close> is the field \<open>value\<close> of an
  output, a non-negative integer.
\<close>

record ChainEntry =
  height :: int
  stakeModifier :: Hash
  entry_prevBlock :: Hash

record Output =
  out_value :: nat

record Coins =
  coin_height :: int
  coin_nTime :: int
  outputs :: "int \<Rightarrow> Output option"

record Outpoint =
  hash :: Hash
  index :: int

text \<open>\<open>coin.getOutput(i)\<close>: the output, or \<open>null\<close> where there is none.\<close>

definition getOutput :: "Coins \<Rightarrow> int \<Rightarrow> Output option" where
  "getOutput coin i = outputs coin i"

text \<open>
  \<open>checkStakeKernelHash\<close> is an \<open>async\<close> function; the model gives the value its
  promise settles to: \<open>Inr\<close> the boolean it resolves to, \<open>Inl\<close> the error it is
  rejected with.
\<close>

definition checkStakeKernelHash ::
  "Externals \<Rightarrow> ChainEntry \<Rightarrow> int \<Rightarrow> Coins option \<Rightarrow> Outpoint \<Rightarrow> int \<Rightarrow> error + bool"
where
  "checkStakeKernelHash E prev blkbits coin previousout timeTx =
     (let blkheight = height prev + 1
      in case coin of
           None \<Rightarrow> Inr False
         | Some coin \<Rightarrow>
             if blkheight - coin_height coin < STAKE_MIN_CONFIRMATIONS E then Inr False
             else
               (case getOutput coin (index previousout) of
                  None \<Rightarrow> Inl (TypeError ''Cannot read property value of null'')
                | Some out \<Rightarrow>
                    let nValueIn = out_value out
                    in if nValueIn = 0 then Inr False
                       else
                         let bnTarget = fromCompact E blkbits
                         in andThen (writeHash [] (stakeModifier prev)) (\<lambda>bw.
                            andThen (writeU32 bw (coin_nTime coin)) (\<lambda>bw.
                            andThen (writeHash bw (hash previousout)) (\<lambda>bw.
                            andThen (writeU32 bw (index previousout)) (\<lambda>bw.
                            andThen (writeU32 bw timeTx) (\<lambda>proofOfStake.
                              let proofOfStakeHash = toHex (hash256 E proofOfStake);
                                  hashProofOfStake = BN_le proofOfStakeHash;
                                  bgnValueIn = nValueIn;
                                  weight = hashProofOfStake div bgnValueIn
                              in Inr (int weight \<le> bnTarget))))))))"

section \<open>STDJob: the mining job\<close>

text \<open>
  The block template (\<open>attempt\<close>) is built elsewhere. The model keeps the fields the
  staker reads and carries the template's methods as fields, as the object does; the
  types of proofs and blocks are left open.
\<close>

record ('p, 'b) BlockTemplate =
  attempt_prevBlock :: Hash
  attempt_ts :: int
  attempt_target :: "byte list"
  getRoot :: "int \<Rightarrow> int \<Rightarrow> Hash"
  getHeader :: "Hash \<Rightarrow> int \<Rightarrow> int \<Rightarrow> byte list"
  getProof :: "int \<Rightarrow> int \<Rightarrow> int \<Rightarrow> int \<Rightarrow> 'p"
  attempt_commit :: "'p \<Rightarrow> 'b"
  attempt_commitCnTxTime :: "int \<Rightarrow> Outpoint \<Rightarrow> 'b"

record ('p, 'b) STDJob =
  attempt :: "('p, 'b) BlockTemplate"
  destroyed :: bool
  committed :: bool
  start :: int
  nonce1 :: int
  nonce2 :: int

text \<open>
  \<open>new STDJob(miner, attempt)\<close>, created at time \<open>now\<close>. The constructor also calls
  \<open>refresh\<close>, which clears caches of the template that the model does not keep.
\<close>

definition newSTDJob :: "('p, 'b) BlockTemplate \<Rightarrow> int \<Rightarrow> ('p, 'b) STDJob" where
  "newSTDJob a now =
     \<lparr>attempt = a, destroyed = False, committed = False, start = now, nonce1 = 0,
      nonce2 = 0\<rparr>"

definition job_getHeader :: "('p, 'b) STDJob \<Rightarrow> byte list" where
  "job_getHeader this =
     (let a = attempt this; n1 = nonce1 this; n2 = nonce2 this; t = attempt_ts a;
          root = getRoot a n1 n2
      in getHeader a root t 0)"

definition commit :: "('p, 'b) STDJob \<Rightarrow> int \<Rightarrow> error + (('p, 'b) STDJob \<times> 'b)" where
  "commit this nonce' =
     (let a = attempt this; n1 = nonce1 this; n2 = nonce2 this; t = attempt_ts a
      in if committed this then Inl (AssertionError ''Job already committed.'')
         else
           let this' = this\<lparr>committed := True\<rparr>;
               proof' = getProof a n1 n2 t nonce'
           in Inr (this', attempt_commit a proof'))"

definition commitCnTxTime ::
  "('p, 'b) STDJob \<Rightarrow> int \<Rightarrow> Outpoint \<Rightarrow> error + (('p, 'b) STDJob \<times> 'b)"
where
  "commitCnTxTime this nTime stakeCoin =
     (if committed this then Inl (AssertionError ''Job already committed.'')
      else
        let this' = this\<lparr>committed := True\<rparr>
        in Inr (this', attempt_commitCnTxTime (attempt this) nTime stakeCoin))"

definition updateNonce :: "('p, 'b) STDJob \<Rightarrow> ('p, 'b) STDJob" where
  "updateNonce this =
     (let this' = this\<lparr>nonce2 := nonce2 this + 1\<rparr>
      in if nonce2 this' = 0x100000000
         then this'\<lparr>nonce2 := 0, nonce1 := nonce1 this' + 1\<rparr>
         else this')"

definition destroy :: "('p, 'b) STDJob \<Rightarrow> error + ('p, 'b) STDJob" where
  "destroy this =
     (if destroyed this then Inl (AssertionError ''Job already destroyed.'')
      else Inr (this\<lparr>destroyed := True\<rparr>))"

definition getHashes :: "('p, 'b) STDJob \<Rightarrow> int \<Rightarrow> int" where
  "getHashes this nonce' =
     (let extra = nonce1 this * 0x100000000 + nonce2 this
      in extra * 0xffffffff + nonce')"

section \<open>STDStaker\<close>

record ('p, 'b) STDStaker =
  running :: bool
  stopping :: bool
  job :: "('p, 'b) STDJob option"

text \<open>
  The listener that \<open>_init\<close> registers for the chain's \<open>tip\<close> event. The staker holds
  the job by reference; the model stores the job's state in the staker.
\<close>

definition onTip :: "('p, 'b) STDStaker \<Rightarrow> ChainEntry \<Rightarrow> error + ('p, 'b) STDStaker" where
  "onTip this tip =
     (case job this of
        None \<Rightarrow> Inr this
      | Some j \<Rightarrow>
          if attempt_prevBlock (attempt j) = entry_prevBlock tip
          then andThen (destroy j) (\<lambda>j'. Inr (this\<lparr>job := Some j'\<rparr>))
          else Inr this)"

subsection \<open>The nonce search\<close>

text \<open>\<open>STDStaker.INTERVAL = 0xffffffff / 1500 | 0\<close>: the quotient, truncated.\<close>

definition INTERVAL :: int where
  "INTERVAL = 0xffffffff div 1500"

text \<open>
  The loop of \<open>findNonce\<close>. The primitive \<open>mine\<close> (\<open>./mine\<close>) is not among the
  sources and is a parameter. \<open>min'\<close>, \<open>max'\<close> and \<open>nonce'\<close> are the locals
  \<open>min\<close>, \<open>max\<close> and \<open>nonce\<close>, the last one \<open>None\<close> while it is \<open>undefined\<close>; \<open>status\<close> collects the arguments of the calls of
  \<open>sendStatus\<close>, in order.
\<close>

function findNonce_loop ::
  "(byte list \<Rightarrow> byte list \<Rightarrow> int \<Rightarrow> int \<Rightarrow> int) \<Rightarrow> byte list \<Rightarrow> byte list \<Rightarrow>
   int \<Rightarrow> int \<Rightarrow> int option \<Rightarrow> int list \<Rightarrow> int option \<times> int list"
where
  "findNonce_loop mine data target min' max' nonce' status =
     (if max' \<le> 0xffffffff
      then
        let found = mine data target min' max'
        in if found \<noteq> - 1 then (Some found, status)
           else findNonce_loop mine data target (min' + INTERVAL) (max' + INTERVAL)
                  (Some found) (status @ [max'])
      else (nonce', status))"
  by pat_completeness auto
termination
  by (relation "measure (\<lambda>(mine, data, target, min', max', nonce', status).
        nat (0x100000000 - max'))")
     (simp_all add: INTERVAL_def)

definition findNonce ::
  "(byte list \<Rightarrow> byte list \<Rightarrow> int \<Rightarrow> int \<Rightarrow> int) \<Rightarrow> ('p, 'b) STDJob \<Rightarrow> int option \<times> int list"
where
  "findNonce mine j =
     (let data = job_getHeader j; target = attempt_target (attempt j);
          interval = INTERVAL; min' = 0; max' = interval
      in findNonce_loop mine data target min' max' None [])"

text \<open>
  Modelled from the spec: the contract of the missing primitive, ``for each slice
  \<open>[min, max)\<close> \<dots> a nonce such that \<open>hashForVersion(header_with_nonce) \<le> target\<close>''
  and ``within one slice, the lowest winning nonce is returned'', with \<open>- 1\<close> for a
  miss. \<open>wins data target n\<close> says that nonce \<open>n\<close> meets the target.
\<close>

definition mine_spec ::
  "(byte list \<Rightarrow> byte list \<Rightarrow> int \<Rightarrow> bool) \<Rightarrow> byte list \<Rightarrow> byte list \<Rightarrow> int \<Rightarrow> int \<Rightarrow> int"
where
  "mine_spec wins data target min' max' =
     (case find (wins data target) [min'..max' - 1] of Some n \<Rightarrow> n | None \<Rightarrow> - 1)"

subsection \<open>The stake search\<close>

text \<open>
  \<open>util.now()\<close> reads the clock: \<open>now k\<close> is what its \<open>k\<close>-th call returns.
  \<open>x & ~15\<close> works on 32-bit two's complement integers.
\<close>

definition and_not_15 :: "int \<Rightarrow> int" where
  "and_not_15 x = sint ((word_of_int x :: 32 word) AND NOT 15)"

text \<open>
  \<open>let prevOut, stakeCoin;\<close> declares \<open>prevOut\<close> and nothing assigns it: it is
  \<open>undefined\<close> (\<open>None\<close>) whenever \<open>prevOut.value\<close> is evaluated.
\<close>

definition prevOut_value :: "Output option \<Rightarrow> error + nat" where
  "prevOut_value prevOut =
     (case prevOut of
        None \<Rightarrow> Inl (TypeError ''Cannot read property value of undefined'')
      | Some out \<Rightarrow> Inr (out_value out))"

text \<open>
  The kernel check is an \<open>async\<close> function called without \<open>await\<close>: \<open>foundKernel\<close>
  holds its promise, and a promise is truthy whatever it settles to.
\<close>

definition truthy_promise :: "error + bool \<Rightarrow> bool" where
  "truthy_promise p = True"

text \<open>The \<open>for (let coin of coins)\<close> loop: the coin it breaks on, if any.\<close>

fun scanCoins ::
  "Externals \<Rightarrow> ChainEntry \<Rightarrow> (Hash \<Rightarrow> Coins option) \<Rightarrow> Output option \<Rightarrow> int \<Rightarrow>
   Outpoint list \<Rightarrow> error + Outpoint option"
where
  "scanCoins E prev db prevOut nTime [] = Inr None"
| "scanCoins E prev db prevOut nTime (coin # coins) =
     (let txPrev = db (hash coin)
      in andThen (prevOut_value prevOut) (\<lambda>v.
           let target = toCompact E v;
               foundKernel =
                 truthy_promise (checkStakeKernelHash E prev target txPrev coin nTime)
           in if foundKernel then Inr (Some coin)
              else scanCoins E prev db prevOut nTime coins))"

text \<open>
  The outer \<open>for (;;)\<close> loop; \<open>k\<close> counts the clock readings made so far. The result
  is \<open>None\<close> when the loop never ends.
\<close>

partial_function (option) doStake_loop ::
  "Externals \<Rightarrow> (nat \<Rightarrow> int) \<Rightarrow> ChainEntry \<Rightarrow> (Hash \<Rightarrow> Coins option) \<Rightarrow> Outpoint list \<Rightarrow>
   nat \<Rightarrow> int \<Rightarrow> (error + int \<times> Outpoint) option"
where
  "doStake_loop E now prev db coins k nTime =
     (if nTime \<noteq> 0 \<and> nTime + 16 = now k
      then doStake_loop E now prev db coins (Suc k) nTime
      else
        (case scanCoins E prev db None (and_not_15 (now (if nTime \<noteq> 0 then Suc k else k)))
                coins of
           Inl e \<Rightarrow> Some (Inl e)
         | Inr (Some stakeCoin) \<Rightarrow>
             Some (Inr (and_not_15 (now (if nTime \<noteq> 0 then Suc k else k)), stakeCoin))
         | Inr None \<Rightarrow>
             doStake_loop E now prev db coins (Suc (if nTime \<noteq> 0 then Suc k else k))
               (and_not_15 (now (if nTime \<noteq> 0 then Suc k else k)))))"

text \<open>
  \<open>doStake\<close> (and \<open>doStakeAsync\<close>, whose body is the same and never awaits): the
  search, then the commit of the job and the signing of the block; \<open>sign\<close> stands for
  the wallet's signature of the coinstake and of the block.
\<close>

definition doStake ::
  "Externals \<Rightarrow> (nat \<Rightarrow> int) \<Rightarrow> ChainEntry \<Rightarrow> (Hash \<Rightarrow> Coins option) \<Rightarrow> Outpoint list \<Rightarrow>
   ('b \<Rightarrow> Outpoint \<Rightarrow> 'b) \<Rightarrow> ('p, 'b) STDJob \<Rightarrow> (error + ('p, 'b) STDJob \<times> 'b) option"
where
  "doStake E now prev db coins sign j =
     (case doStake_loop E now prev db coins 0 0 of
        None \<Rightarrow> None
      | Some (Inl e) \<Rightarrow> Some (Inl e)
      | Some (Inr (nTime, stakeCoin)) \<Rightarrow>
          Some (andThen (commitCnTxTime j nTime stakeCoin) (\<lambda>(j', stakedblock).
                  Inr (j', sign stakedblock stakeCoin))))"

section \<open>Example values\<close>

text \<open>
  Concrete inputs at which the theorems below are exercised. \<open>exampleExternals\<close>
  stands in for the external primitives: 500 confirmations, the easiest target (every
  32-byte digest passes) and a digest function that returns the largest digest.
\<close>

definition exampleExternals :: Externals where
  "exampleExternals =
     \<lparr>STAKE_MIN_CONFIRMATIONS = 500, fromCompact = (\<lambda>blkbits. 2 ^ 256),
      toCompact = (\<lambda>v. 0), hash256 = (\<lambda>data. replicate 32 255)\<rparr>"

definition exampleTip :: ChainEntry where
  "exampleTip =
     \<lparr>height = 499, stakeModifier = replicate 64 (CHR ''a''), entry_prevBlock = NULL_HASH\<rparr>"

definition exampleCoins :: Coins where
  "exampleCoins =
     \<lparr>coin_height = 0, coin_nTime = 1500000000,
      outputs = (\<lambda>i. if i = 0 then Some \<lparr>out_value = 100\<rparr> else None)\<rparr>"

definition exampleOutpoint :: Outpoint where
  "exampleOutpoint = \<lparr>hash = replicate 64 (CHR ''1''), index = 0\<rparr>"

text \<open>
  \<open>exampleDigest\<close> is the double SHA-256 of the 76 bytes that the kernel builds from
  \<open>exampleTip\<close>, \<open>exampleCoins\<close>, \<open>exampleOutpoint\<close> and the time \<open>1500000016\<close>
  (in hexadecimal \<open>6c3c7901 7c35d198 32c28eed 50471f2e 17a3ae0b 37c44803 3c814b83
  47a47bbb\<close>). \<open>digestExternals\<close> returns it as the digest and expands the compact
  target \<open>0x1d00ffff\<close> to \<open>0xffff \<cdot> 2^208\<close>.
\<close>

definition exampleDigest :: "byte list" where
  "exampleDigest =
     [108, 60, 121, 1, 124, 53, 209, 152, 50, 194, 142, 237, 80, 71, 31, 46, 23, 163, 174, 11,
      55, 196, 72, 3, 60, 129, 75, 131, 71, 164, 123, 187]"

definition digestExternals :: Externals where
  "digestExternals =
     \<lparr>STAKE_MIN_CONFIRMATIONS = 500, fromCompact = (\<lambda>blkbits. 0xffff * 2 ^ 208),
      toCompact = (\<lambda>v. 0), hash256 = (\<lambda>data. exampleDigest)\<rparr>"

definition exampleHead :: AbstractBlock where
  "exampleHead =
     newAbstractBlock\<lparr>version := 7,
       merkleRoot := ''3ba3edfd7a7b12b27ac72c3e67768f617fc81bc3888a51323a9fb8aa4b1e5e4a'',
       ts := 1500000016, bits := 486604799, nonce := 4294967295\<rparr>"

text \<open>
  A template whose proofs and blocks are just the numbers they are built from, a job on
  it, and a running staker that holds the job.
\<close>

definition exampleAttempt ::
  "(int \<times> int \<times> int \<times> int, int \<times> int \<times> int \<times> int) BlockTemplate"
where
  "exampleAttempt =
     \<lparr>attempt_prevBlock = NULL_HASH, attempt_ts = 1500000000, attempt_target = [],
      getRoot = (\<lambda>n1 n2. NULL_HASH), getHeader = (\<lambda>root t n. []),
      getProof = (\<lambda>n1 n2 t n. (n1, n2, t, n)), attempt_commit = (\<lambda>p. p),
      attempt_commitCnTxTime = (\<lambda>t c. (0, 0, t, 0))\<rparr>"

definition exampleJob ::
  "(int \<times> int \<times> int \<times> int, int \<times> int \<times> int \<times> int) STDJob"
where
  "exampleJob = newSTDJob exampleAttempt 1500000000"

definition exampleStaker ::
  "(int \<times> int \<times> int \<times> int, int \<times> int \<times> int \<times> int) STDStaker"
where
  "exampleStaker = \<lparr>running = True, stopping = False, job = Some exampleJob\<rparr>"

section \<open>Facts about the codecs\<close>

lemma hexVal_hexDigit: "n < 16 \<Longrightarrow> hexVal (hexDigit n) = Some n"
  by (auto simp: hexDigit_def hexVal_def Let_def)

lemma isLowerHex_hexDigit: "n < 16 \<Longrightarrow> isLowerHex (hexDigit n)"
  by (auto simp: hexDigit_def isLowerHex_def Let_def)

lemma hexDigit_hexVal:
  "isLowerHex c \<Longrightarrow> \<exists>n < 16. hexVal c = Some n \<and> hexDigit n = c"
proof -
  assume h: "isLowerHex c"
  define k where "k = (of_char c :: nat)"
  have c: "c = char_of k" by (simp add: k_def)
  from h consider "48 \<le> k \<and> k \<le> 57" | "97 \<le> k \<and> k \<le> 102"
    by (auto simp: isLowerHex_def Let_def k_def)
  then show ?thesis
  proof cases
    case 1
    then have "hexVal c = Some (k - 48)" "hexDigit (k - 48) = c" "k - 48 < 16"
      by (auto simp: hexVal_def hexDigit_def Let_def c)
    then show ?thesis by blast
  next
    case 2
    then have "hexVal c = Some (k - 87)" "hexDigit (k - 87) = c" "k - 87 < 16"
      by (auto simp: hexVal_def hexDigit_def Let_def c)
    then show ?thesis by blast
  qed
qed

lemma byte_nibbles:
  fixes b :: byte
  shows "unat b div 16 < 16" and "unat b mod 16 < 16"
    and "(of_nat (16 * (unat b div 16) + unat b mod 16) :: byte) = b"
proof -
  have "unat b < 256" using unsigned_less [of b] by simp
  then show "unat b div 16 < 16" by simp
  show "unat b mod 16 < 16" by simp
  have "16 * (unat b div 16) + unat b mod 16 = unat b" by simp
  then show "(of_nat (16 * (unat b div 16) + unat b mod 16) :: byte) = b"
    by simp
qed

lemma fromHex_toHex: "fromHex (toHex bs) = bs"
proof (induction bs)
  case Nil
  show ?case by simp
next
  case (Cons b bs)
  have v: "hexVal (hexDigit (unat b div 16)) = Some (unat b div 16)"
    "hexVal (hexDigit (unat b mod 16)) = Some (unat b mod 16)"
    by (simp_all only: hexVal_hexDigit byte_nibbles)
  show ?case
    by (simp only: toHex.simps fromHex.simps v byte_nibbles(3) Cons.IH prod.case option.case)
qed

lemma length_toHex: "length (toHex bs) = 2 * length bs"
  by (induction bs) simp_all

text \<open>On a string of lower-case digits of even length, decoding loses nothing.\<close>

lemma toHex_fromHex_aux:
  "length s = 2 * n \<Longrightarrow> list_all isLowerHex s \<Longrightarrow>
   toHex (fromHex s) = s \<and> length (fromHex s) = n"
proof (induction n arbitrary: s)
  case 0
  then show ?case by simp
next
  case (Suc n)
  then obtain a b rest where s: "s = a # b # rest"
    by (cases s; cases "tl s") auto
  with Suc.prems have rest: "length rest = 2 * n" "list_all isLowerHex rest"
    and a: "isLowerHex a" and b: "isLowerHex b"
    by auto
  from a obtain x where x: "x < 16" "hexVal a = Some x" "hexDigit x = a"
    using hexDigit_hexVal by blast
  from b obtain y where y: "y < 16" "hexVal b = Some y" "hexDigit y = b"
    using hexDigit_hexVal by blast
  have lt: "16 * x + y < 256" using x(1) y(1) by simp
  then have u: "unat (of_nat (16 * x + y) :: byte) = 16 * x + y"
    by (simp only: unat_of_nat) simp
  have d: "(16 * x + y) div 16 = x" and m: "(16 * x + y) mod 16 = y"
    using y(1) by simp_all
  from Suc.IH [OF rest] have ih: "toHex (fromHex rest) = rest" "length (fromHex rest) = n"
    by simp_all
  show ?case
    unfolding s
    by (simp only: fromHex.simps x(2) y(2) prod.case option.case toHex.simps u d m x(3) y(3)
        ih list.size) simp
qed

lemma toHex_hashBytes: "isHash h \<Longrightarrow> toHex (hashBytes h) = h"
  using toHex_fromHex_aux [of h 32] by (simp add: isHash_def hashBytes_def)

lemma length_hashBytes: "isHash h \<Longrightarrow> length (hashBytes h) = 32"
  using toHex_fromHex_aux [of h 32] by (simp add: isHash_def hashBytes_def)

lemma isHash_toHex: "length bs = 32 \<Longrightarrow> isHash (toHex bs)"
proof -
  have "list_all isLowerHex (toHex xs)" for xs :: "byte list"
    by (induction xs) (simp_all add: isLowerHex_hexDigit byte_nibbles)
  then show "length bs = 32 \<Longrightarrow> isHash (toHex bs)"
    by (simp add: isHash_def length_toHex)
qed

lemma int_bytes:
  fixes n :: int
  shows "n mod 256 + 256 * (n div 256 mod 256) + 65536 * (n div 65536 mod 256) +
         16777216 * (n div 16777216) = n"
proof -
  have d2: "n div 65536 = n div 256 div 256" by (simp add: zdiv_zmult2_eq)
  have d3: "n div 16777216 = n div 256 div 256 div 256" by (simp add: zdiv_zmult2_eq)
  have e1: "n = n mod 256 + 256 * (n div 256)" by simp
  have e2: "n div 256 = n div 256 mod 256 + 256 * (n div 256 div 256)" by simp
  have e3: "n div 256 div 256 = n div 256 div 256 mod 256 + 256 * (n div 256 div 256 div 256)"
    by simp
  show ?thesis unfolding d2 d3 using e1 e2 e3 by linarith
qed

lemma readU32_u32le:
  "isU32 n \<Longrightarrow> readU32 (u32le n @ rest) = Inr (n, rest)"
proof -
  assume "isU32 n"
  then have n: "0 \<le> n" "n < 2 ^ 32" by (simp_all add: isU32_def)
  have b: "uint (word_of_int k :: byte) = k mod 2 ^ 8" for k
    by (simp add: uint_word_of_int)
  from n show ?thesis
    by (simp add: readU32_def u32le_def b int_bytes)
qed

lemma length_u32le: "length (u32le n) = 4"
  by (simp add: u32le_def Let_def)

lemma readHash_hashBytes:
  "isHash h \<Longrightarrow> readHash (hashBytes h @ rest) = Inr (h, rest)"
  by (simp add: readHash_def length_hashBytes toHex_hashBytes)

lemma toHead_bytes:
  "isHash (prevBlock h) \<Longrightarrow> isHash (merkleRoot h) \<Longrightarrow>
   toHead h = Inr (u32le (version h) @ hashBytes (prevBlock h) @ hashBytes (merkleRoot h) @
                   u32le (ts h) @ u32le (bits h) @ u32le (nonce h))"
  by (simp add: toHead_def writeHead_def andThen_def writeU32_def writeHash_def isHash_def)

lemma isHash_replicate: "isLowerHex c \<Longrightarrow> isHash (replicate 64 c)"
  by (simp add: isHash_def list_all_iff)

lemma leNat_bound: "leNat bs < 256 ^ length bs"
proof (induction bs)
  case Nil
  show ?case by simp
next
  case (Cons b bs)
  have "unat b < 256" using unsigned_less [of b] by simp
  moreover from Cons have "256 * leNat bs + 256 \<le> 256 * 256 ^ length bs" by simp
  ultimately show ?case by simp
qed

text \<open>The numeral that \<open>BN\<close> reads from the string of a buffer, and its size.\<close>

lemma parseDigit_hexDigit: "n < 16 \<Longrightarrow> parseDigit (hexDigit n) = int n"
  by (auto simp: parseDigit_def hexDigit_def Let_def)

lemma parse_toHex:
  "foldl (\<lambda>r ch. r * 10 + parseDigit ch) r (toHex bs) = foldl nibbleStep r bs"
  by (induction bs arbitrary: r)
    (simp_all add: parseDigit_hexDigit byte_nibbles nibbleStep_def)

lemma parse_bound:
  "0 \<le> r \<Longrightarrow>
   0 \<le> foldl nibbleStep r bs \<and> foldl nibbleStep r bs + 2 \<le> (r + 2) * 100 ^ length bs"
proof (induction bs arbitrary: r)
  case Nil
  then show ?case by simp
next
  case (Cons b bs)
  have h: "int (unat b div 16) \<le> 15" "int (unat b mod 16) \<le> 15"
    using byte_nibbles(1,2) [of b] by simp_all
  have r0: "0 \<le> nibbleStep r b" using Cons.prems by (simp add: nibbleStep_def)
  have r2: "nibbleStep r b + 2 \<le> (r + 2) * 100" using h by (simp add: nibbleStep_def)
  from Cons.IH [OF r0] have a: "0 \<le> foldl nibbleStep (nibbleStep r b) bs"
    and b: "foldl nibbleStep (nibbleStep r b) bs + 2
              \<le> (nibbleStep r b + 2) * 100 ^ length bs"
    by simp_all
  have "(nibbleStep r b + 2) * 100 ^ length bs \<le> ((r + 2) * 100) * 100 ^ length bs"
    using r2 by (rule mult_right_mono) simp
  also have "\<dots> = (r + 2) * 100 ^ length (b # bs)" by simp
  finally have c: "(nibbleStep r b + 2) * 100 ^ length bs \<le> (r + 2) * 100 ^ length (b # bs)" .
  from b c have "foldl nibbleStep (nibbleStep r b) bs + 2 \<le> (r + 2) * 100 ^ length (b # bs)"
    by (rule order_trans)
  with a show ?case by (simp only: foldl_Cons)
qed

lemma length_toArray: "n < 256 ^ k \<Longrightarrow> 0 < k \<Longrightarrow> length (toArray n) \<le> k"
proof (induction k arbitrary: n)
  case 0
  then show ?case by simp
next
  case (Suc k)
  show ?case
  proof (cases "n < 256")
    case True
    then show ?thesis by (simp add: toArray.simps [of n])
  next
    case False
    with Suc.prems have k: "0 < k" by (cases k) simp_all
    from Suc.prems have "n div 256 < 256 ^ k"
      by (simp add: less_mult_imp_div_less mult.commute)
    from Suc.IH [OF this k] False show ?thesis by (simp add: toArray.simps [of n])
  qed
qed

text \<open>Whatever the 32 bytes of a digest are, \<open>BN\<close> reads a number of at most 27 bytes.\<close>

lemma BN_le_digest_bound:
  assumes "length bs = 32"
  shows "BN_le (toHex bs) < 2 ^ 216"
proof -
  let ?n = "foldl nibbleStep 0 bs"
  have p: "parseBase10 (toHex bs) = ?n" by (simp add: parseBase10_def parse_toHex)
  from parse_bound [of 0 bs] assms have n: "0 \<le> ?n" "?n + 2 \<le> 2 * 100 ^ 32" by simp_all
  have "(2::int) * 100 ^ 32 \<le> 256 ^ 27" by simp
  with n have "?n < 256 ^ 27" by linarith
  then have "nat ?n < 256 ^ 27" using n(1) by (simp add: nat_less_iff)
  then have l: "length (toArray (nat ?n)) \<le> 27" by (rule length_toArray) simp
  have "leNat (toArray (nat ?n)) < 256 ^ length (toArray (nat ?n))" by (rule leNat_bound)
  also have "\<dots> \<le> (256::nat) ^ 27" using l by (rule power_increasing) simp
  finally show ?thesis by (simp add: BN_le_def p)
qed

lemma parseBase10_exampleDigest:
  "parseBase10 (toHex exampleDigest) =
     7242790182363198332295535047253418041411382448034281518348048221"
  by (simp only: parseBase10_def parse_toHex) (simp add: exampleDigest_def nibbleStep_def)

lemma BN_le_exampleDigest:
  "BN_le (toHex exampleDigest) =
     38295337573598021876342522124813601818116047629905728344268446481"
  by (simp add: BN_le_def parseBase10_exampleDigest toArray.simps)

lemma leNat_exampleDigest:
  "leNat exampleDigest =
     84800958688422614009252035301790814188681436081818195326929365172253653285996"
  by (simp add: exampleDigest_def)

section \<open>The block header\<close>

lemma validHeader_exampleHead: "validHeader exampleHead"
  by (simp add: validHeader_def exampleHead_def newAbstractBlock_def isU32_def isHash_def
      NULL_HASH_def isLowerHex_def list_all_iff)

text \<open>
  Claim C8. For a header whose \<open>version\<close>, \<open>ts\<close>, \<open>bits\<close> and \<open>nonce\<close> are
  unsigned 32-bit integers and whose \<open>prevBlock\<close> and \<open>merkleRoot\<close> are 32-byte hashes
  (\<open>validHeader\<close>; a hash is held as the lower-case hexadecimal string of its bytes,
  the form \<open>readHash('hex')\<close> produces), \<open>toHead\<close> yields the 80 bytes
  \<open>u32 version \<parallel> prevBlock \<parallel> merkleRoot \<parallel> u32 ts \<parallel> u32 bits \<parallel> u32 nonce\<close>, and
  \<open>fromHead\<close> on these bytes sets the six header fields of any block to those of the
  header; parsing into the header itself gives it back unchanged.
\<close>

theorem header_round_trip:
  assumes "validHeader h"
  shows "\<exists>data. toHead h = Inr data \<and> length data = 80 \<and>
           data = u32le (version h) @ hashBytes (prevBlock h) @ hashBytes (merkleRoot h) @
                  u32le (ts h) @ u32le (bits h) @ u32le (nonce h) \<and>
           fromHead this data =
             Inr (this\<lparr>version := version h, prevBlock := prevBlock h,
                       merkleRoot := merkleRoot h, ts := ts h, bits := bits h,
                       nonce := nonce h\<rparr>) \<and>
           fromHead h data = Inr h"
proof -
  from assms have v: "isU32 (version h)" "isU32 (ts h)" "isU32 (bits h)" "isU32 (nonce h)"
    and p: "isHash (prevBlock h)" and m: "isHash (merkleRoot h)"
    by (simp_all add: validHeader_def)
  let ?data = "u32le (version h) @ hashBytes (prevBlock h) @ hashBytes (merkleRoot h) @
               u32le (ts h) @ u32le (bits h) @ u32le (nonce h)"
  have w: "toHead h = Inr ?data" using p m by (rule toHead_bytes)
  have l: "length ?data = 80" by (simp add: length_u32le length_hashBytes p m)
  have r: "fromHead b ?data =
             Inr (b\<lparr>version := version h, prevBlock := prevBlock h,
                    merkleRoot := merkleRoot h, ts := ts h, bits := bits h,
                    nonce := nonce h\<rparr>)" for b
    using readU32_u32le [OF v(4), of "[]"]
    by (simp add: fromHead_def readHead_def andThen_def readU32_u32le v readHash_hashBytes p m)
  from w l r [of this] r [of h] show ?thesis by simp
qed

theorem header_round_trip_witness:
  "validHeader exampleHead \<and>
   (\<exists>data. toHead exampleHead = Inr data \<and> length data = 80 \<and>
      fromHead newAbstractBlock data = Inr exampleHead)"
proof -
  have e: "newAbstractBlock\<lparr>version := version exampleHead, prevBlock := prevBlock exampleHead,
             merkleRoot := merkleRoot exampleHead, ts := ts exampleHead,
             bits := bits exampleHead, nonce := nonce exampleHead\<rparr> = exampleHead"
    by (simp add: exampleHead_def newAbstractBlock_def)
  from header_round_trip [OF validHeader_exampleHead, of newAbstractBlock]
  show ?thesis unfolding e using validHeader_exampleHead by blast
qed

section \<open>The stake kernel\<close>

lemma kernel_eval:
  "getOutput c (index po) = Some out \<Longrightarrow>
   STAKE_MIN_CONFIRMATIONS E \<le> height prev + 1 - coin_height c \<Longrightarrow> 0 < out_value out \<Longrightarrow>
   length (stakeModifier prev) = 64 \<Longrightarrow> length (hash po) = 64 \<Longrightarrow>
   checkStakeKernelHash E prev blkbits (Some c) po timeTx =
     Inr (int (BN_le (toHex (hash256 E (hashBytes (stakeModifier prev) @ u32le (coin_nTime c) @
                                       hashBytes (hash po) @ u32le (index po) @
                                       u32le timeTx)))
               div out_value out) \<le> fromCompact E blkbits)"
  by (simp add: checkStakeKernelHash_def Let_def andThen_def writeHash_def writeU32_def)

lemma kernel_true_cases:
  assumes "checkStakeKernelHash E prev blkbits (Some c) po timeTx = Inr True"
  obtains out where "getOutput c (index po) = Some out"
    and "STAKE_MIN_CONFIRMATIONS E \<le> height prev + 1 - coin_height c"
    and "0 < out_value out"
    and "length (stakeModifier prev) = 64" and "length (hash po) = 64"
  using assms
  by (auto simp: checkStakeKernelHash_def Let_def andThen_def writeHash_def writeU32_def
      split: option.splits if_splits)

lemma example_digest_passes:
  "int (BN_le (toHex (hash256 exampleExternals data)) div v)
     \<le> fromCompact exampleExternals blkbits"
proof -
  have "BN_le (toHex (hash256 exampleExternals data)) < 2 ^ 216"
    by (rule BN_le_digest_bound) (simp add: exampleExternals_def)
  then have b: "BN_le (toHex (hash256 exampleExternals data)) < 2 ^ 256" by simp
  have a: "BN_le (toHex (hash256 exampleExternals data)) div v
             \<le> BN_le (toHex (hash256 exampleExternals data))"
    by (rule div_le_dividend)
  from a b have "BN_le (toHex (hash256 exampleExternals data)) div v < 2 ^ 256"
    by (rule le_less_trans)
  then have "int (BN_le (toHex (hash256 exampleExternals data)) div v) < int (2 ^ 256)"
    by (simp only: of_nat_less_iff)
  then show ?thesis by (simp add: exampleExternals_def)
qed

lemma example_output:
  "getOutput exampleCoins (index exampleOutpoint) = Some \<lparr>out_value = 100\<rparr>"
  by (simp add: getOutput_def exampleCoins_def exampleOutpoint_def)

lemma example_gate:
  "STAKE_MIN_CONFIRMATIONS exampleExternals \<le> height exampleTip + 1 - coin_height exampleCoins"
  by (simp add: exampleExternals_def exampleTip_def exampleCoins_def)

lemma example_hashes: "isHash (stakeModifier exampleTip)" "isHash (hash exampleOutpoint)"
  by (simp_all add: exampleTip_def exampleOutpoint_def isHash_replicate isLowerHex_def)

lemma example_kernel:
  "checkStakeKernelHash exampleExternals exampleTip blkbits (Some exampleCoins)
     exampleOutpoint timeTx = Inr True"
proof -
  have l: "length (stakeModifier exampleTip) = 64" "length (hash exampleOutpoint) = 64"
    using example_hashes by (simp_all add: isHash_def)
  show ?thesis
    using example_digest_passes by (simp add: kernel_eval [OF example_output example_gate _ l])
qed

text \<open>
  Claim C1 (a defect of the code). The kernel hands the digest to \<open>BN\<close> as a
  hexadecimal string with \<open>'le'\<close> where the base belongs, so the number it divides is
  not the digest read as a little-endian 256-bit integer. At the example input (output
  value 100, compact target \<open>0x1d00ffff\<close>) the code divides
  \<open>38295337573598021876342522124813601818116047629905728344268446481\<close>, finds the
  quotient below the target and resolves to true; the digest read as a little-endian
  integer is
  \<open>84800958688422614009252035301790814188681436081818195326929365172253653285996\<close>,
  and its quotient by 100 is above the target.
\<close>

theorem kernel_digest_reading:
  "checkStakeKernelHash digestExternals exampleTip 0x1d00ffff (Some exampleCoins)
     exampleOutpoint 1500000016 = Inr True \<and>
   BN_le (toHex exampleDigest) =
     38295337573598021876342522124813601818116047629905728344268446481 \<and>
   leNat (hash256 digestExternals
            (hashBytes (stakeModifier exampleTip) @ u32le (coin_nTime exampleCoins) @
             hashBytes (hash exampleOutpoint) @ u32le (index exampleOutpoint) @
             u32le 1500000016)) =
     84800958688422614009252035301790814188681436081818195326929365172253653285996 \<and>
   \<not> int (leNat (hash256 digestExternals
                    (hashBytes (stakeModifier exampleTip) @ u32le (coin_nTime exampleCoins) @
                     hashBytes (hash exampleOutpoint) @ u32le (index exampleOutpoint) @
                     u32le 1500000016)) div 100)
       \<le> fromCompact digestExternals 0x1d00ffff"
proof -
  have g: "STAKE_MIN_CONFIRMATIONS digestExternals
             \<le> height exampleTip + 1 - coin_height exampleCoins"
    by (simp add: digestExternals_def exampleTip_def exampleCoins_def)
  have l: "length (stakeModifier exampleTip) = 64" "length (hash exampleOutpoint) = 64"
    using example_hashes by (simp_all add: isHash_def)
  have v: "0 < out_value \<lparr>out_value = 100\<rparr>" by simp
  have d: "hash256 digestExternals data = exampleDigest" for data
    by (simp add: digestExternals_def)
  have t: "fromCompact digestExternals 0x1d00ffff = 0xffff * 2 ^ 208"
    by (simp add: digestExternals_def)
  have k: "checkStakeKernelHash digestExternals exampleTip 0x1d00ffff (Some exampleCoins)
             exampleOutpoint 1500000016 = Inr True"
    unfolding kernel_eval [OF example_output g v l] d t BN_le_exampleDigest by simp
  show ?thesis
    unfolding d t using k by (simp add: BN_le_exampleDigest leNat_exampleDigest)
qed




text \<open>
  Claim C5. If two evaluations of the kernel differ only in the value of the staked
  output, the second value being \<open>k\<close> times the first with \<open>k \<ge> 1\<close>, and the first
  resolves to true, then so does the second.
\<close>

theorem kernel_proportionality:
  assumes k: "1 \<le> k"
    and out1: "getOutput coin1 (index po) = Some out1"
    and coin2: "coin2 = coin1\<lparr>outputs := (outputs coin1)
                  (index po := Some (out1\<lparr>out_value := k * out_value out1\<rparr>))\<rparr>"
    and true1: "checkStakeKernelHash E prev blkbits (Some coin1) po timeTx = Inr True"
  shows "checkStakeKernelHash E prev blkbits (Some coin2) po timeTx = Inr True"
proof -
  from true1 out1 have gate: "STAKE_MIN_CONFIRMATIONS E \<le> height prev + 1 - coin_height coin1"
    and v: "0 < out_value out1"
    and len: "length (stakeModifier prev) = 64" "length (hash po) = 64"
    by (auto elim!: kernel_true_cases)
  let ?h = "BN_le (toHex (hash256 E (hashBytes (stakeModifier prev) @ u32le (coin_nTime coin1) @
                                     hashBytes (hash po) @ u32le (index po) @ u32le timeTx)))"
  let ?out2 = "out1\<lparr>out_value := k * out_value out1\<rparr>"
  from true1 have le1: "int (?h div out_value out1) \<le> fromCompact E blkbits"
    by (simp add: kernel_eval [OF out1 gate v len])
  have out2: "getOutput coin2 (index po) = Some ?out2"
    by (simp add: coin2 getOutput_def)
  have gate2: "STAKE_MIN_CONFIRMATIONS E \<le> height prev + 1 - coin_height coin2"
    using gate by (simp add: coin2)
  have v2: "0 < out_value ?out2" using k v by simp
  have "out_value out1 \<le> k * out_value out1" using k by simp
  with v have "?h div (k * out_value out1) \<le> ?h div out_value out1"
    by (rule div_le_mono2)
  with le1 have le2: "int (?h div out_value ?out2) \<le> fromCompact E blkbits" by simp
  have n: "coin_nTime coin2 = coin_nTime coin1" by (simp add: coin2)
  show ?thesis
    unfolding kernel_eval [OF out2 gate2 v2 len] n using le2 by simp
qed

theorem kernel_proportionality_witness:
  "checkStakeKernelHash exampleExternals exampleTip 0 (Some exampleCoins) exampleOutpoint
     1500000016 = Inr True \<and>
   checkStakeKernelHash exampleExternals exampleTip 0
     (Some (exampleCoins\<lparr>outputs := (outputs exampleCoins)
        (index exampleOutpoint :=
           Some (\<lparr>out_value = 100\<rparr>\<lparr>out_value := 3 * out_value \<lparr>out_value = 100\<rparr>\<rparr>))\<rparr>))
     exampleOutpoint 1500000016 = Inr True"
proof -
  have k: "(1::nat) \<le> 3" by simp
  from example_kernel kernel_proportionality [OF k example_output refl example_kernel]
  show ?thesis by simp
qed

section \<open>The mining job\<close>

text \<open>
  Claim C4, as stated, fails in its second half: a destroyed job that has not been
  committed does commit, and \<open>commit\<close> returns the block of its template.
\<close>

theorem destroyed_commit_counterexample:
  "destroyed (exampleJob\<lparr>destroyed := True\<rparr>) \<and>
   commit (exampleJob\<lparr>destroyed := True\<rparr>) 7 =
     Inr (exampleJob\<lparr>destroyed := True, committed := True\<rparr>, (0, 0, 1500000000, 7))"
  by (simp add: commit_def exampleJob_def newSTDJob_def exampleAttempt_def)

text \<open>
  Claim C4, amended. After a successful \<open>commit\<close> or \<open>commitCnTxTime\<close> every further
  \<open>commit\<close> and \<open>commitCnTxTime\<close> on the job raises ``Job already committed.''.
  Neither operation reads the \<open>destroyed\<close> flag: on a job that has not been committed,
  destroyed or not, \<open>commit\<close> marks the job committed and returns the block the
  template builds from the proof, and \<open>commitCnTxTime\<close> the block the template builds
  from the stake time and coin.
\<close>

theorem single_commit:
  "(commit j n = Inr (j', b) \<or> commitCnTxTime j t c = Inr (j', b) \<longrightarrow>
      commit j' n' = Inl (AssertionError ''Job already committed.'') \<and>
      commitCnTxTime j' t' c' = Inl (AssertionError ''Job already committed.'')) \<and>
   (\<not> committed j \<longrightarrow>
      commit j n =
        Inr (j\<lparr>committed := True\<rparr>,
             attempt_commit (attempt j)
               (getProof (attempt j) (nonce1 j) (nonce2 j) (attempt_ts (attempt j)) n)) \<and>
      commitCnTxTime j t c =
        Inr (j\<lparr>committed := True\<rparr>, attempt_commitCnTxTime (attempt j) t c))"
  by (auto simp: commit_def commitCnTxTime_def Let_def split: if_splits)

theorem single_commit_witness:
  "commit exampleJob 7 = Inr (exampleJob\<lparr>committed := True\<rparr>, (0, 0, 1500000000, 7)) \<and>
   commit (exampleJob\<lparr>committed := True\<rparr>) 8 =
     Inl (AssertionError ''Job already committed.'') \<and>
   commitCnTxTime (exampleJob\<lparr>committed := True\<rparr>) 1500000016 exampleOutpoint =
     Inl (AssertionError ''Job already committed.'') \<and>
   \<not> committed (exampleJob\<lparr>destroyed := True\<rparr>) \<and>
   commit (exampleJob\<lparr>destroyed := True\<rparr>) 7 =
     Inr (exampleJob\<lparr>destroyed := True, committed := True\<rparr>, (0, 0, 1500000000, 7))"
proof -
  have c: "commit exampleJob 7 =
             Inr (exampleJob\<lparr>committed := True\<rparr>, (0, 0, 1500000000, 7))"
    by (simp add: commit_def exampleJob_def newSTDJob_def exampleAttempt_def)
  have d: "\<not> committed (exampleJob\<lparr>destroyed := True\<rparr>)"
    by (simp add: exampleJob_def newSTDJob_def)
  from c d
    single_commit [of exampleJob 7 "exampleJob\<lparr>committed := True\<rparr>" "(0, 0, 1500000000, 7)"
      0 exampleOutpoint 8 1500000016 exampleOutpoint]
    single_commit [of "exampleJob\<lparr>destroyed := True\<rparr>" 7 exampleJob "(0, 0, 0, 0)"
      0 exampleOutpoint 8 0 exampleOutpoint]
  show ?thesis
    by (simp add: exampleJob_def newSTDJob_def exampleAttempt_def)
qed

text \<open>
  The extra-nonce pair counts the calls of \<open>updateNonce\<close>: \<open>nonce2\<close> is incremented,
  and at \<open>2 ^ 32\<close> it is reset and \<open>nonce1\<close> incremented.
\<close>

lemma updateNonce_extra:
  "0 \<le> nonce2 j \<Longrightarrow> nonce2 j < 2 ^ 32 \<Longrightarrow>
   nonce1 (updateNonce j) * 2 ^ 32 + nonce2 (updateNonce j) = nonce1 j * 2 ^ 32 + nonce2 j + 1 \<and>
   0 \<le> nonce2 (updateNonce j) \<and> nonce2 (updateNonce j) < 2 ^ 32"
  by (simp add: updateNonce_def Let_def)

text \<open>
  Claim C7, as stated, fails: after one \<open>updateNonce\<close> the counters are \<open>n1 = 0\<close> and
  \<open>n2 = 1\<close>, and \<open>getHashes(0)\<close> is \<open>4294967295\<close>, not
  \<open>(n1 \<cdot> 2^32 + n2) \<cdot> 2^32 + 0 = 4294967296\<close>.
\<close>

theorem getHashes_counterexample:
  "nonce1 (updateNonce exampleJob) = 0 \<and> nonce2 (updateNonce exampleJob) = 1 \<and>
   getHashes (updateNonce exampleJob) 0 = 4294967295 \<and>
   getHashes (updateNonce exampleJob) 0 \<noteq>
     (nonce1 (updateNonce exampleJob) * 2 ^ 32 + nonce2 (updateNonce exampleJob)) * 2 ^ 32 + 0"
  by (simp add: getHashes_def updateNonce_def exampleJob_def newSTDJob_def)

text \<open>
  Claim C7, amended. The factor of the extra-nonce count is \<open>0xffffffff = 2^32 - 1\<close>:
  for counters \<open>n1\<close>, \<open>n2\<close> and a nonce in the range where the arithmetic of the
  source is exact (all non-negative, \<open>n2\<close> below \<open>2^32\<close>, the result below \<open>2^53\<close>),
  \<open>getHashes(nonce)\<close> is \<open>(n1 \<cdot> 2^32 + n2) \<cdot> (2^32 - 1) + nonce\<close>.
\<close>

theorem getHashes_value:
  assumes "0 \<le> nonce1 j" and "0 \<le> nonce2 j" and "nonce2 j < 2 ^ 32" and "0 \<le> n"
    and "(nonce1 j * 2 ^ 32 + nonce2 j) * (2 ^ 32 - 1) + n < 2 ^ 53"
  shows "getHashes j n = (nonce1 j * 2 ^ 32 + nonce2 j) * (2 ^ 32 - 1) + n"
  by (simp add: getHashes_def)

theorem getHashes_value_witness:
  "getHashes (updateNonce exampleJob) 5 = (0 * 2 ^ 32 + 1) * (2 ^ 32 - 1) + 5"
proof -
  have n: "nonce1 (updateNonce exampleJob) = 0" "nonce2 (updateNonce exampleJob) = 1"
    by (simp_all add: updateNonce_def exampleJob_def newSTDJob_def)
  show ?thesis
    using getHashes_value [of "updateNonce exampleJob" 5] by (simp add: n)
qed

section \<open>The tip listener\<close>

text \<open>
  Claim C10. Let the staker hold a job and let a tip event carry the \<open>prevBlock\<close> of the
  job's template. If the job is already destroyed, the listener raises ``Job already
  destroyed.''. If it is not, the listener destroys it and keeps holding it, so that
  the next such event raises.
\<close>

theorem tip_twice_raises:
  assumes "job s = Some j" and "attempt_prevBlock (attempt j) = entry_prevBlock tip"
  shows "(destroyed j \<longrightarrow> onTip s tip = Inl (AssertionError ''Job already destroyed.'')) \<and>
         (\<not> destroyed j \<longrightarrow>
            onTip s tip = Inr (s\<lparr>job := Some (j\<lparr>destroyed := True\<rparr>)\<rparr>) \<and>
            onTip (s\<lparr>job := Some (j\<lparr>destroyed := True\<rparr>)\<rparr>) tip =
              Inl (AssertionError ''Job already destroyed.''))"
  using assms by (simp add: onTip_def destroy_def andThen_def)

theorem tip_twice_raises_witness:
  "onTip exampleStaker exampleTip =
     Inr (exampleStaker\<lparr>job := Some (exampleJob\<lparr>destroyed := True\<rparr>)\<rparr>) \<and>
   onTip (exampleStaker\<lparr>job := Some (exampleJob\<lparr>destroyed := True\<rparr>)\<rparr>) exampleTip =
     Inl (AssertionError ''Job already destroyed.'')"
proof -
  have j: "job exampleStaker = Some exampleJob" by (simp add: exampleStaker_def)
  have p: "attempt_prevBlock (attempt exampleJob) = entry_prevBlock exampleTip"
    by (simp add: exampleJob_def newSTDJob_def exampleAttempt_def exampleTip_def)
  have d: "\<not> destroyed exampleJob" by (simp add: exampleJob_def newSTDJob_def)
  from tip_twice_raises [OF j p] d show ?thesis by simp
qed

section \<open>The nonce search\<close>

lemma INTERVAL_value: "INTERVAL = 2863311"
  by (simp add: INTERVAL_def)

text \<open>
  One round of the loop at slice \<open>k\<close>, whose bounds are \<open>k \<cdot> INTERVAL\<close> and
  \<open>(k + 1) \<cdot> INTERVAL\<close>: the first 1500 slices pass the test \<open>max \<le> 0xffffffff\<close>,
  the next one does not.
\<close>

lemma loop_end:
  "findNonce_loop mine d t (int 1500 * INTERVAL) (int (Suc 1500) * INTERVAL) n st = (n, st)"
  by (subst findNonce_loop.simps) (simp add: INTERVAL_value)

lemma loop_step:
  assumes "k < 1500"
  shows "findNonce_loop mine d t (int k * INTERVAL) (int (Suc k) * INTERVAL) n st =
           (if mine d t (int k * INTERVAL) (int (Suc k) * INTERVAL) \<noteq> - 1
            then (Some (mine d t (int k * INTERVAL) (int (Suc k) * INTERVAL)), st)
            else findNonce_loop mine d t (int (Suc k) * INTERVAL) (int (Suc (Suc k)) * INTERVAL)
                   (Some (- 1)) (st @ [int (Suc k) * INTERVAL]))"
proof -
  from assms have "int (Suc k) * INTERVAL \<le> 0xffffffff"
    by (simp add: INTERVAL_value)
  then show ?thesis
    by (subst findNonce_loop.simps) (simp add: Let_def algebra_simps)
qed

lemma loop_all_miss:
  assumes "\<forall>i. k \<le> i \<and> i < 1500 \<longrightarrow>
             mine d t (int i * INTERVAL) (int (Suc i) * INTERVAL) = - 1"
    and "k \<le> 1500"
  shows "findNonce_loop mine d t (int k * INTERVAL) (int (Suc k) * INTERVAL) n st =
           (if k = 1500 then n else Some (- 1),
            st @ map (\<lambda>i. int (Suc i) * INTERVAL) [k..<1500])"
  using assms
proof (induction "1500 - k" arbitrary: k n st)
  case 0
  then have "k = 1500" by simp
  then show ?case using loop_end [of mine d t n st] by simp
next
  case (Suc m)
  then have k: "k < 1500" by simp
  with Suc.prems have miss: "mine d t (int k * INTERVAL) (int (Suc k) * INTERVAL) = - 1"
    by simp
  have m: "m = 1500 - Suc k" using Suc.hyps(2) by simp
  have rest: "\<forall>i. Suc k \<le> i \<and> i < 1500 \<longrightarrow>
                mine d t (int i * INTERVAL) (int (Suc i) * INTERVAL) = - 1"
    using Suc.prems(1) by simp
  have le: "Suc k \<le> 1500" using k by simp
  have u: "[k..<1500] = k # [Suc k..<1500]" using k by (simp add: upt_conv_Cons)
  have ih: "findNonce_loop mine d t (int (Suc k) * INTERVAL) (int (Suc (Suc k)) * INTERVAL)
              (Some (- 1)) (st @ [int (Suc k) * INTERVAL]) =
            (if Suc k = 1500 then Some (- 1) else Some (- 1),
             (st @ [int (Suc k) * INTERVAL]) @
             map (\<lambda>i. int (Suc i) * INTERVAL) [Suc k..<1500])"
    by (rule Suc.hyps(1) [OF m rest le])
  show ?case
    unfolding loop_step [OF k] u using miss k ih by simp
qed

text \<open>The search consults \<open>mine\<close> on the 1500 slices and nowhere else.\<close>

lemma loop_cong:
  assumes "\<forall>i < 1500. mine d t (int i * INTERVAL) (int (Suc i) * INTERVAL) =
                         mine2 d t (int i * INTERVAL) (int (Suc i) * INTERVAL)"
    and "k \<le> 1500"
  shows "findNonce_loop mine d t (int k * INTERVAL) (int (Suc k) * INTERVAL) n st =
         findNonce_loop mine2 d t (int k * INTERVAL) (int (Suc k) * INTERVAL) n st"
  using assms(2)
proof (induction "1500 - k" arbitrary: k n st)
  case 0
  then have "k = 1500" by simp
  then show ?case using loop_end [of mine d t n st] loop_end [of mine2 d t n st] by simp
next
  case (Suc m)
  then have k: "k < 1500" by simp
  have m: "m = 1500 - Suc k" using Suc.hyps(2) by simp
  have le: "Suc k \<le> 1500" using k by simp
  from assms(1) k have e: "mine d t (int k * INTERVAL) (int (Suc k) * INTERVAL) =
                           mine2 d t (int k * INTERVAL) (int (Suc k) * INTERVAL)"
    by blast
  show ?case
    unfolding loop_step [OF k] e using Suc.hyps(1) [OF m le] by simp
qed

lemma findNonce_start:
  "findNonce mine j =
     findNonce_loop mine (job_getHeader j) (attempt_target (attempt j))
       (int 0 * INTERVAL) (int (Suc 0) * INTERVAL) None []"
  by (simp add: findNonce_def Let_def)

lemma findNonce_slices_only:
  assumes "\<forall>i < 1500. mine (job_getHeader j) (attempt_target (attempt j))
                          (int i * INTERVAL) (int (Suc i) * INTERVAL) =
                        mine2 (job_getHeader j) (attempt_target (attempt j))
                          (int i * INTERVAL) (int (Suc i) * INTERVAL)"
  shows "findNonce mine j = findNonce mine2 j"
  unfolding findNonce_start
  using loop_cong [where k = 0 and mine = mine and ?mine2.0 = mine2
      and d = "job_getHeader j" and t = "attempt_target (attempt j)" and n = None
      and st = "[]"] assms
  by simp

lemma mine_spec_sound:
  "mine_spec w d t lo hi = - 1 \<or>
   (lo \<le> mine_spec w d t lo hi \<and> mine_spec w d t lo hi < hi \<and>
    w d t (mine_spec w d t lo hi))"
proof (cases "find (w d t) [lo..hi - 1]")
  case None
  then show ?thesis by (simp add: mine_spec_def)
next
  case (Some r)
  then have "r \<in> set [lo..hi - 1]" and "w d t r"
    by (auto simp: find_Some_iff)
  with Some show ?thesis by (simp add: mine_spec_def)
qed

text \<open>
  Claim C9. \<open>INTERVAL\<close> is \<open>2863311\<close> and \<open>1500 \<cdot> INTERVAL = 4294966500\<close>. Let
  \<open>mine\<close> be any primitive that, on a slice \<open>[min, max)\<close>, returns \<open>- 1\<close> or a nonce
  of the slice that meets the target (\<open>wins\<close>), and let only nonces from \<open>4294966500\<close>
  on meet the target. Then \<open>findNonce\<close> returns \<open>- 1\<close> after exactly 1500 slices,
  the \<open>i\<close>-th of them ending at \<open>(i + 1) \<cdot> INTERVAL\<close>, none beyond \<open>4294966500\<close>;
  and what \<open>mine\<close> would do on any other range has no influence on the search.
\<close>

theorem findNonce_skips_top:
  assumes sound: "\<forall>lo hi. mine (job_getHeader j) (attempt_target (attempt j)) lo hi = - 1 \<or>
            (lo \<le> mine (job_getHeader j) (attempt_target (attempt j)) lo hi \<and>
             mine (job_getHeader j) (attempt_target (attempt j)) lo hi < hi \<and>
             wins (mine (job_getHeader j) (attempt_target (attempt j)) lo hi))"
    and top: "\<forall>n. wins n \<longrightarrow> 4294966500 \<le> n"
  shows "INTERVAL = 2863311 \<and> 1500 * INTERVAL = 4294966500 \<and>
         findNonce mine j = (Some (- 1), map (\<lambda>i. int (Suc i) * INTERVAL) [0..<1500]) \<and>
         length (snd (findNonce mine j)) = 1500 \<and>
         (\<forall>hi \<in> set (snd (findNonce mine j)). hi \<le> 4294966500) \<and>
         (\<forall>mine2. (\<forall>i < 1500. mine2 (job_getHeader j) (attempt_target (attempt j))
                                (int i * INTERVAL) (int (Suc i) * INTERVAL) =
                              mine (job_getHeader j) (attempt_target (attempt j))
                                (int i * INTERVAL) (int (Suc i) * INTERVAL))
            \<longrightarrow> findNonce mine2 j = findNonce mine j)"
proof -
  let ?d = "job_getHeader j" and ?t = "attempt_target (attempt j)"
  have miss: "mine ?d ?t (int i * INTERVAL) (int (Suc i) * INTERVAL) = - 1" if "i < 1500" for i
  proof (rule ccontr)
    let ?r = "mine ?d ?t (int i * INTERVAL) (int (Suc i) * INTERVAL)"
    assume "?r \<noteq> - 1"
    with sound have "?r < int (Suc i) * INTERVAL" and "wins ?r" by metis+
    with top have "4294966500 < int (Suc i) * INTERVAL" by fastforce
    with that show False by (simp add: INTERVAL_value)
  qed
  then have all: "\<forall>i. 0 \<le> i \<and> i < 1500 \<longrightarrow>
                    mine ?d ?t (int i * INTERVAL) (int (Suc i) * INTERVAL) = - 1"
    by simp
  have r: "findNonce mine j = (Some (- 1), map (\<lambda>i. int (Suc i) * INTERVAL) [0..<1500])"
    unfolding findNonce_start
    using loop_all_miss [where k = 0 and mine = mine and d = ?d and t = ?t and n = None
        and st = "[]"] all
    by simp
  have c: "findNonce mine2 j = findNonce mine j"
    if "\<forall>i < 1500. mine2 ?d ?t (int i * INTERVAL) (int (Suc i) * INTERVAL) =
                     mine ?d ?t (int i * INTERVAL) (int (Suc i) * INTERVAL)" for mine2
    using that by (rule findNonce_slices_only)
  have b: "\<forall>hi \<in> set (snd (findNonce mine j)). hi \<le> 4294966500"
  proof
    fix hi
    assume "hi \<in> set (snd (findNonce mine j))"
    then obtain i where "i < 1500" and "hi = int (Suc i) * INTERVAL"
      unfolding r by auto
    then show "hi \<le> 4294966500" by (simp add: INTERVAL_value)
  qed
  have i2: "1500 * INTERVAL = 4294966500" by (simp add: INTERVAL_value)
  have l: "length (snd (findNonce mine j)) = 1500" unfolding r by simp
  from INTERVAL_value i2 r l b c show ?thesis by blast
qed

theorem findNonce_skips_top_witness:
  "findNonce (mine_spec (\<lambda>d t n. n = 4294967295)) exampleJob =
     (Some (- 1), map (\<lambda>i. int (Suc i) * INTERVAL) [0..<1500])"
proof -
  have s: "\<forall>lo hi. mine_spec (\<lambda>d t n. n = 4294967295) (job_getHeader exampleJob)
                      (attempt_target (attempt exampleJob)) lo hi = - 1 \<or>
            (lo \<le> mine_spec (\<lambda>d t n. n = 4294967295) (job_getHeader exampleJob)
                      (attempt_target (attempt exampleJob)) lo hi \<and>
             mine_spec (\<lambda>d t n. n = 4294967295) (job_getHeader exampleJob)
                      (attempt_target (attempt exampleJob)) lo hi < hi \<and>
             (\<lambda>n. n = 4294967295)
               (mine_spec (\<lambda>d t n. n = 4294967295) (job_getHeader exampleJob)
                  (attempt_target (attempt exampleJob)) lo hi))"
    using mine_spec_sound [of "\<lambda>d t n. n = 4294967295"] by blast
  have t: "\<forall>n::int. (\<lambda>n. n = 4294967295) n \<longrightarrow> 4294966500 \<le> n" by simp
  from findNonce_skips_top
         [where mine = "mine_spec (\<lambda>d t n. n = 4294967295)" and j = exampleJob
            and wins = "\<lambda>n. n = 4294967295", OF s t]
  show ?thesis by blast
qed

text \<open>
  The top of the nonce space stays out of reach also for a primitive that takes its
  upper bound \<open>max\<close> as part of the slice: only \<open>4294966500\<close> itself is then tried
  in addition.
\<close>

lemma findNonce_inclusive_bound:
  assumes sound: "\<forall>lo hi. mine (job_getHeader j) (attempt_target (attempt j)) lo hi = - 1 \<or>
            (mine (job_getHeader j) (attempt_target (attempt j)) lo hi \<le> hi \<and>
             wins (mine (job_getHeader j) (attempt_target (attempt j)) lo hi))"
    and top: "\<forall>n. wins n \<longrightarrow> 4294966500 < n"
  shows "findNonce mine j = (Some (- 1), map (\<lambda>i. int (Suc i) * INTERVAL) [0..<1500])"
proof -
  let ?d = "job_getHeader j" and ?t = "attempt_target (attempt j)"
  have miss: "mine ?d ?t (int i * INTERVAL) (int (Suc i) * INTERVAL) = - 1" if "i < 1500" for i
  proof (rule ccontr)
    let ?r = "mine ?d ?t (int i * INTERVAL) (int (Suc i) * INTERVAL)"
    assume "?r \<noteq> - 1"
    with sound have "?r \<le> int (Suc i) * INTERVAL" and "wins ?r" by metis+
    with top have "4294966500 < int (Suc i) * INTERVAL" by fastforce
    with that show False by (simp add: INTERVAL_value)
  qed
  then have all: "\<forall>i. 0 \<le> i \<and> i < 1500 \<longrightarrow>
                    mine ?d ?t (int i * INTERVAL) (int (Suc i) * INTERVAL) = - 1"
    by simp
  show ?thesis
    unfolding findNonce_start
    using loop_all_miss [where k = 0 and mine = mine and d = ?d and t = ?t and n = None
        and st = "[]"] all
    by simp
qed

section \<open>The stake search\<close>

text \<open>The time grid: the low four bits are cleared, in 32-bit two's complement.\<close>

lemma and_not_15_examples:
  "and_not_15 1500000005 = 1500000000" "and_not_15 4294967295 = - 16"
  by (simp_all add: and_not_15_def)

lemma doStake_loop_first:
  "doStake_loop E now prev db (c # cs) 0 0 =
     Some (Inl (TypeError ''Cannot read property value of undefined''))"
  by (subst doStake_loop.simps) (simp add: andThen_def prevOut_value_def)

text \<open>
  Claim C2 (a defect of the code). With at least one coin in the wallet the search
  evaluates \<open>prevOut.value\<close> for the first coin while \<open>prevOut\<close> is \<open>undefined\<close>:
  it raises a TypeError before \<open>toCompact\<close> and the kernel check are reached, so no
  target derived from the coin's value is ever passed on.
\<close>

theorem doStake_raises:
  "doStake E now prev db (c # cs) sign j =
     Some (Inl (TypeError ''Cannot read property value of undefined''))"
  by (simp add: doStake_def doStake_loop_first)

text \<open>A search that returns has seen a coin.\<close>

lemma doStake_loop_returns:
  assumes "doStake_loop E now prev db coins k nTime = Some y"
  shows "coins \<noteq> []"
proof (rule doStake_loop.raw_induct
    [where P = "\<lambda>E now prev db coins k nTime y. coins \<noteq> []", OF _ assms])
  fix f :: "Externals \<Rightarrow> (nat \<Rightarrow> int) \<Rightarrow> ChainEntry \<Rightarrow> (Hash \<Rightarrow> Coins option) \<Rightarrow>
            Outpoint list \<Rightarrow> nat \<Rightarrow> int \<Rightarrow> (error + int \<times> Outpoint) option"
  fix E now prev db coins k nTime y
  assume ih: "\<And>E now prev db coins k nTime y.
                f E now prev db coins k nTime = Some y \<Longrightarrow> coins \<noteq> []"
  assume body:
    "(if nTime \<noteq> 0 \<and> nTime + 16 = now k
      then f E now prev db coins (Suc k) nTime
      else case scanCoins E prev db None
                  (and_not_15 (now (if nTime \<noteq> 0 then Suc k else k))) coins of
             Inl e \<Rightarrow> Some (Inl e)
           | Inr None \<Rightarrow>
               f E now prev db coins (Suc (if nTime \<noteq> 0 then Suc k else k))
                 (and_not_15 (now (if nTime \<noteq> 0 then Suc k else k)))
           | Inr (Some stakeCoin) \<Rightarrow>
               Some (Inr (and_not_15 (now (if nTime \<noteq> 0 then Suc k else k)), stakeCoin)))
     = Some y"
  show "coins \<noteq> []"
  proof
    assume e: "coins = []"
    show False
    proof (cases "nTime \<noteq> 0 \<and> nTime + 16 = now k")
      case True
      with body have "f E now prev db coins (Suc k) nTime = Some y" by simp
      from ih [OF this] e show False by simp
    next
      case False
      with body e
      have "f E now prev db coins (Suc (if nTime \<noteq> 0 then Suc k else k))
              (and_not_15 (now (if nTime \<noteq> 0 then Suc k else k))) = Some y"
        by simp
      from ih [OF this] e show False by simp
    qed
  qed
qed

lemma doStake_loop_empty: "doStake_loop E now prev db [] k nTime = None"
proof (cases "doStake_loop E now prev db [] k nTime")
  case None
  then show ?thesis .
next
  case (Some y)
  from doStake_loop_returns [OF this] show ?thesis by simp
qed

text \<open>The search never reads the \<open>destroyed\<close> flag of its job.\<close>

lemma doStake_never_reads_destroyed:
  "doStake E now prev db coins sign (j\<lparr>destroyed := d\<rparr>) =
   map_option (map_sum id (\<lambda>(j', b). (j'\<lparr>destroyed := d\<rparr>, b)))
     (doStake E now prev db coins sign j)"
  by (auto simp: doStake_def commitCnTxTime_def andThen_def Let_def
      split: option.splits sum.splits)

text \<open>
  Claim C6 (a defect of the code). The loop of the stake search does not observe the
  destruction of its job: for a destroyed job and a wallet without coins it never
  returns, whatever the clock shows.
\<close>

theorem doStake_ignores_destroyed:
  "doStake E now prev db [] sign (j\<lparr>destroyed := True\<rparr>) = None"
  by (simp add: doStake_def doStake_loop_empty)

end
